theory Spec2Isabelle
  imports Complex_Main "HOL-Library.Sublist"
begin

section \<open>The driver simulator of WCTSystem (driver_simulator.py)\<close>

text \<open>
  The script densifies a route of [longitude, latitude] vertices
  (\<^verbatim>\<open>evenly_space_coordinates\<close>) and then walks the densified route, posting every
  point to the collector API and pausing at bins (\<^verbatim>\<open>DriverSimulator.drive_route\<close>).

  Modelling decisions.
  \<^item> A coordinate is a pair \<open>(lon, lat)\<close>: the source indexes every point at \<open>[0]\<close> and
    \<open>[1]\<close> only and unpacks it as \<open>longitude, latitude = coords\<close>.
  \<^item> A Python float is the real number it denotes. Float arithmetic is not exact: the
    result of \<open>+\<close>, \<open>-\<close>, \<open>*\<close>, \<open>/\<close> and \<^verbatim>\<open>math.sqrt\<close> is the exact result rounded
    to a float. The rounding is a parameter of every function of the model (\<open>floats\<close>
    below), so that a statement proved for every \<open>ar\<close> holds for the doubles of
    the machine as well as for exact arithmetic. Overflow, infinities and NaN are
    outside the model.
  \<^item> Exceptions are values of \<open>error\<close>; a function that can raise returns \<open>error + 'a\<close>.
\<close>

subsection \<open>Float arithmetic\<close>

text \<open>
  A float arithmetic is a pair of functions: \<open>rnd\<close>, which takes the exact result of
  an operation to the float the machine returns, and \<open>square\<close>, the result of
  \<^verbatim>\<open>x**2\<close> (computed by the \<open>pow\<close> of the C library, which need not round
  correctly). Of the rounding, only that it keeps zero and takes no non-negative
  number to a negative one is used; of the square, only that it is not negative and
  that the square of zero is zero. \<open>exact\<close> is the arithmetic that does not round;
  \<open>binary64\<close>, below, is that of IEEE 754 doubles.
\<close>

typedef floats =
  "{(r :: real \<Rightarrow> real, q :: real \<Rightarrow> real).
      (\<forall>x. 0 \<le> x \<longrightarrow> 0 \<le> r x) \<and> r 0 = 0 \<and> (\<forall>x. 0 \<le> q x) \<and> q 0 = 0}"
  by (rule exI [of _ "(\<lambda>x. x, \<lambda>x. x\<^sup>2)"]) simp

setup_lifting type_definition_floats

lift_definition rnd :: "floats \<Rightarrow> real \<Rightarrow> real" is "\<lambda>(r, q). r" .

lift_definition square :: "floats \<Rightarrow> real \<Rightarrow> real" is "\<lambda>(r, q). q" .

lift_definition exact :: floats is "(\<lambda>x. x, \<lambda>x. x\<^sup>2)"
  by simp

subsection \<open>Python primitives\<close>

datatype error = ZeroDivisionError | ValueError

type_synonym coord = "real \<times> real"

text \<open>\<^verbatim>\<open>int(x)\<close> on a float truncates toward zero; no rounding is involved.\<close>

definition py_int :: "real \<Rightarrow> int" where
  "py_int x = (if 0 \<le> x then \<lfloor>x\<rfloor> else \<lceil>x\<rceil>)"

text \<open>
  \<^verbatim>\<open>round(x, 6)\<close>: the exact value of the float \<open>x\<close> is rounded to the nearest multiple
  of \<open>10^-6\<close>, a tie going to the even multiple, and the float nearest to that decimal
  number is returned.
\<close>

definition round_half_even :: "real \<Rightarrow> int" where
  "round_half_even y =
     (let f = \<lfloor>y\<rfloor>; r = y - of_int f
      in if r < 1 / 2 then f
         else if 1 / 2 < r then f + 1
         else if even f then f else f + 1)"

definition py_round6 :: "floats \<Rightarrow> real \<Rightarrow> real" where
  "py_round6 ar x = rnd ar (of_int (round_half_even (x * 10 ^ 6)) / 10 ^ 6)"

text \<open>Float division \<^verbatim>\<open>a / b\<close> raises ZeroDivisionError when \<open>b\<close> is zero.\<close>

definition py_div :: "floats \<Rightarrow> real \<Rightarrow> real \<Rightarrow> error + real" where
  "py_div ar a b = (if b = 0 then Inl ZeroDivisionError else Inr (rnd ar (a / b)))"

subsection \<open>The arithmetic of doubles\<close>

text \<open>
  The doubles of IEEE 754, with the exponent range taken as unbounded (no overflow,
  no subnormal numbers): a number other than zero is rounded to the nearest multiple
  of the unit in the last place of its binade, \<open>2^(e - 52)\<close> for
  \<open>2^e \<le> |x| < 2^(e + 1)\<close>, a tie going to the even multiple. The square is taken as
  correctly rounded.
\<close>

definition ulp :: "real \<Rightarrow> real" where
  "ulp x = 2 powr of_int (\<lfloor>log 2 \<bar>x\<bar>\<rfloor> - 52)"

definition round_binary64 :: "real \<Rightarrow> real" where
  "round_binary64 x = (if x = 0 then 0 else of_int (round_half_even (x / ulp x)) * ulp x)"

lift_definition binary64 :: floats is "(round_binary64, \<lambda>x. round_binary64 (x * x))"
proof -
  have f: "0 \<le> round_half_even y" if "0 \<le> y" for y
    using that by (auto simp: round_half_even_def Let_def)
  have n: "0 \<le> round_binary64 x" if "0 \<le> x" for x
    using that f [of "x / ulp x"] by (simp add: round_binary64_def ulp_def)
  have z: "round_binary64 0 = 0"
    by (simp add: round_binary64_def)
  show ?thesis using n z by auto
qed

subsection \<open>evenly_space_coordinates\<close>

text \<open>
  Lines 39-42: the Euclidean distance of the two ends of a segment, each operation
  rounded. \<^verbatim>\<open>math.sqrt\<close> raises for a negative argument; its argument here is the
  rounded sum of two squares, which is never negative (lemma \<open>sum_of_squares_nonneg\<close>
  below), so that this branch does not exist.
\<close>

definition distance :: "floats \<Rightarrow> coord \<Rightarrow> coord \<Rightarrow> real" where
  "distance ar start_point end_point =
     rnd ar (sqrt (rnd ar (square ar (rnd ar (fst end_point - fst start_point)) +
                           square ar (rnd ar (snd end_point - snd start_point)))))"

text \<open>Line 45: \<^verbatim>\<open>num_points = max(1, int(distance / spacing_factor))\<close>.\<close>

definition num_points :: "floats \<Rightarrow> coord \<Rightarrow> coord \<Rightarrow> real \<Rightarrow> error + int" where
  "num_points ar start_point end_point spacing_factor =
     (case py_div ar (distance ar start_point end_point) spacing_factor of
        Inl e \<Rightarrow> Inl e
      | Inr q \<Rightarrow> Inr (max 1 (py_int q)))"

text \<open>
  Lines 49-52: the point appended for one \<open>j\<close> of the inner loop. The quotient of the
  two integers \<open>j / num_points\<close> is a float; \<open>num_points\<close> is at least 1 there.
\<close>

definition intermediate :: "floats \<Rightarrow> coord \<Rightarrow> coord \<Rightarrow> int \<Rightarrow> int \<Rightarrow> coord" where
  "intermediate ar start_point end_point n j =
     (let ratio = rnd ar (of_int j / of_int n);
          intermediate_lon =
            rnd ar (fst start_point + rnd ar (ratio * rnd ar (fst end_point - fst start_point)));
          intermediate_lat =
            rnd ar (snd start_point + rnd ar (ratio * rnd ar (snd end_point - snd start_point)))
      in (py_round6 ar intermediate_lon, py_round6 ar intermediate_lat))"

text \<open>Lines 48-52: the inner loop over \<^verbatim>\<open>range(1, num_points)\<close>.\<close>

definition intermediate_points :: "floats \<Rightarrow> coord \<Rightarrow> coord \<Rightarrow> int \<Rightarrow> coord list" where
  "intermediate_points ar start_point end_point n =
     map (intermediate ar start_point end_point n) [1..n - 1]"

text \<open>
  Lines 35-56: the body of the outer loop at index \<open>i\<close>, from the result so far to the
  result after the iteration. The indices \<open>i\<close> and \<open>i + 1\<close> are in range for every
  \<open>i\<close> of \<^verbatim>\<open>range(len(coordinates) - 1)\<close>.
\<close>

definition segment_body ::
  "floats \<Rightarrow> coord list \<Rightarrow> real \<Rightarrow> coord list \<Rightarrow> nat \<Rightarrow> error + coord list" where
  "segment_body ar coordinates spacing_factor result i =
     (let start_point = coordinates ! i;
          end_point = coordinates ! (i + 1)
      in case num_points ar start_point end_point spacing_factor of
           Inl e \<Rightarrow> Inl e
         | Inr n \<Rightarrow>
             Inr (result @ intermediate_points ar start_point end_point n
                    @ (if i < length coordinates - 2 then [end_point] else [])))"

text \<open>The outer loop: the iterations in order, stopping at the first exception.\<close>

fun segment_loop ::
  "floats \<Rightarrow> coord list \<Rightarrow> real \<Rightarrow> nat list \<Rightarrow> coord list \<Rightarrow> error + coord list" where
  "segment_loop ar coordinates spacing_factor [] result = Inr result"
| "segment_loop ar coordinates spacing_factor (i # is) result =
     (case segment_body ar coordinates spacing_factor result i of
        Inl e \<Rightarrow> Inl e
      | Inr result' \<Rightarrow> segment_loop ar coordinates spacing_factor is result')"

definition evenly_space_coordinates :: "floats \<Rightarrow> coord list \<Rightarrow> real \<Rightarrow> error + coord list" where
  "evenly_space_coordinates ar coordinates spacing_factor =
     (if length coordinates < 2 then Inr coordinates
      else case segment_loop ar coordinates spacing_factor
                  [0..<length coordinates - 1] [coordinates ! 0] of
             Inl e \<Rightarrow> Inl e
           | Inr result \<Rightarrow> Inr (result @ [last coordinates]))"

subsection \<open>Module constants\<close>

text \<open>
  The walker reads four module-level constants. The model passes them as a record, so
  that statements can range over every route, bin list and tolerance; the values the
  script binds them to follow. A decimal literal of the script denotes the float
  nearest to it.
\<close>

record constants =
  route :: "coord list"
  bins :: "coord list"
  tolerance :: real
  resets :: "(string \<times> nat) list"

definition literals :: "floats \<Rightarrow> coord list \<Rightarrow> coord list" where
  "literals ar ps = map (\<lambda>(x, y). (rnd ar x, rnd ar y)) ps"

definition ORIGINAL_ROUTE_COORDINATES :: "floats \<Rightarrow> coord list" where
  "ORIGINAL_ROUTE_COORDINATES ar = literals ar
     [(-73.957618, 40.776143), (-73.957939, 40.776281), (-73.959469, 40.77693),
      (-73.959649, 40.777006), (-73.961166, 40.777636), (-73.960701, 40.778272),
      (-73.959824, 40.777904), (-73.959189, 40.777637), (-73.959649, 40.777006),
      (-73.960115, 40.776368), (-73.960606, 40.775689), (-73.961107, 40.774999),
      (-73.96093, 40.774925), (-73.960267, 40.774645), (-73.959397, 40.77428),
      (-73.959854, 40.773656), (-73.960321, 40.773016), (-73.959191, 40.77254)]"

definition ROUTE_COORDINATES :: "floats \<Rightarrow> error + coord list" where
  "ROUTE_COORDINATES ar =
     evenly_space_coordinates ar (ORIGINAL_ROUTE_COORDINATES ar) (rnd ar 0.0002)"

definition BIN_COORDINATES :: "floats \<Rightarrow> coord list" where
  "BIN_COORDINATES ar =
     literals ar [(-73.9599, 40.7778), (-73.9603, 40.7746), (-73.959, 40.7728)]"

definition COORDINATE_TOLERANCE :: "floats \<Rightarrow> real" where
  "COORDINATE_TOLERANCE ar = rnd ar 0.0005"

definition BINS_TO_RESET :: "(string \<times> nat) list" where
  "BINS_TO_RESET = [(''67cbf9384d042a183ab3e09c'', 75), (''67cbf9384d042a183ab3e096'', 95)]"

subsection \<open>The outside world\<close>

text \<open>
  A call of \<^verbatim>\<open>requests\<close> followed by \<^verbatim>\<open>raise_for_status\<close> either yields the JSON
  object of the response (\<^verbatim>\<open>update_location\<close> is annotated to return a dictionary) or
  raises a RequestException, the only exception the script catches. The network is a
  parameter: it fixes the outcome of the PUT for each bin and of the location POST
  made at each step of the walk.
\<close>

type_synonym dict = "(string \<times> string) list"

datatype http_outcome = Response dict | RequestException string

record network =
  put_fill_level :: "string \<Rightarrow> nat \<Rightarrow> http_outcome"
  post_location :: "nat \<Rightarrow> coord \<Rightarrow> http_outcome"

text \<open>
  What a run does to the outside world, in order: the requests it sends, the calls of
  \<^verbatim>\<open>time.sleep\<close> (line 241 at a bin, line 248 between two points), the line printed
  when a bin is reached, and two lines of console output: the error line of
  \<^verbatim>\<open>update_location\<close> and the status line that reads its result. The other prints
  carry progress text and timestamps only and are left out.
\<close>

datatype event =
    Put string nat
  | PostDirect string nat
  | PostLocation real real
  | Print string
  | ReachedBin nat
  | PauseSleep real
  | StepSleep real

text \<open>A computation: the events so far, and the exception that ended it, if any.\<close>

type_synonym outcome = "event list \<times> error option"

definition then_do :: "outcome \<Rightarrow> outcome \<Rightarrow> outcome" where
  "then_do first second =
     (case snd first of
        Some e \<Rightarrow> (fst first, Some e)
      | None \<Rightarrow> (fst first @ fst second, snd second))"

text \<open>
  \<^verbatim>\<open>time.sleep(t)\<close> raises ValueError for a negative \<open>t\<close>. An interval too large for
  the clock of the machine is an overflow, which is outside the model.
\<close>

definition py_sleep :: "(real \<Rightarrow> event) \<Rightarrow> real \<Rightarrow> outcome" where
  "py_sleep site t = (if t < 0 then ([], Some ValueError) else ([site t], None))"

subsection \<open>DriverSimulator\<close>

record simulator =
  base_url :: string
  token :: "string option"
  speed :: real
  pause_time :: int
  headers :: "(string \<times> string option) list"

text \<open>Lines 105-130: the constructor stores its arguments; it checks none of them.\<close>

definition DriverSimulator_init :: "string \<Rightarrow> string option \<Rightarrow> real \<Rightarrow> int \<Rightarrow> simulator" where
  "DriverSimulator_init url tok spd pause =
     \<lparr> base_url = url, token = tok, speed = spd, pause_time = pause,
       headers = [(''Content-Type'', Some ''application/json''),
                  (''Authorization'',
                     case tok of None \<Rightarrow> None
                     | Some t \<Rightarrow> if t = [] then None else Some (''Bearer '' @ t))] \<rparr>"

text \<open>
  Lines 132-170: one PUT per bin, and the fallback POST when the PUT fails. The
  outcome of the fallback only selects a printed line.
\<close>

definition reset_bin_fill_levels :: "network \<Rightarrow> (string \<times> nat) list \<Rightarrow> event list" where
  "reset_bin_fill_levels net rs =
     concat (map (\<lambda>(bin_id, fill_level).
        case put_fill_level net bin_id fill_level of
          Response _ \<Rightarrow> [Put bin_id fill_level]
        | RequestException _ \<Rightarrow> [Put bin_id fill_level, PostDirect bin_id fill_level]) rs)"

text \<open>
  Lines 172-176, with the tolerance as a parameter. The two differences are float
  subtractions; \<^verbatim>\<open>abs\<close> and \<open><\<close> are exact on floats.
\<close>

definition is_near_waypoint :: "floats \<Rightarrow> real \<Rightarrow> coord \<Rightarrow> coord \<Rightarrow> bool" where
  "is_near_waypoint ar tol current_position waypoint =
     (\<bar>rnd ar (fst current_position - fst waypoint)\<bar> < tol \<and>
      \<bar>rnd ar (snd current_position - snd waypoint)\<bar> < tol)"

text \<open>
  Lines 219-226: the search over \<^verbatim>\<open>enumerate(BIN_COORDINATES)\<close>, leaving at the first
  hit. The result is \<open>bin_index\<close>; \<open>is_at_bin\<close> is true exactly when it is not None.
\<close>

fun find_bin :: "floats \<Rightarrow> real \<Rightarrow> coord \<Rightarrow> nat \<Rightarrow> coord list \<Rightarrow> nat option" where
  "find_bin ar tol coords idx [] = None"
| "find_bin ar tol coords idx (bin_coords # rest) =
     (if is_near_waypoint ar tol coords bin_coords then Some idx
      else find_bin ar tol coords (idx + 1) rest)"

text \<open>
  Lines 178-203: the POST of step \<open>i\<close>. A RequestException is caught, printed and
  turned into the dictionary \<^verbatim>\<open>{"error": str(e)}\<close>; nothing is raised.
\<close>

definition update_location :: "network \<Rightarrow> nat \<Rightarrow> real \<Rightarrow> real \<Rightarrow> event list \<times> dict" where
  "update_location net i longitude latitude =
     (case post_location net i (longitude, latitude) of
        Response d \<Rightarrow> ([PostLocation longitude latitude], d)
      | RequestException e \<Rightarrow>
          ([PostLocation longitude latitude, Print (''Error updating location: '' @ e)],
           [(''error'', e)]))"

text \<open>Lines 232-235: the status line.\<close>

definition status_line :: "dict \<Rightarrow> string" where
  "status_line response =
     (case map_of response ''message'' of
        Some m \<Rightarrow> '' - Server: '' @ m
      | None \<Rightarrow> '' - Updated'')"

text \<open>Lines 238-242: the pause at a bin.\<close>

definition pause_at_bin :: "simulator \<Rightarrow> nat option \<Rightarrow> outcome" where
  "pause_at_bin sim bin_index =
     (case bin_index of
        None \<Rightarrow> ([], None)
      | Some idx \<Rightarrow> then_do ([ReachedBin idx], None)
                      (py_sleep PauseSleep (of_int (pause_time sim))))"

text \<open>
  Lines 246-248: the sleep between two points, for the float quotient
  \<^verbatim>\<open>1.0 / self.speed\<close>; \<open>n\<close> is \<^verbatim>\<open>len(ROUTE_COORDINATES)\<close>.
\<close>

definition sleep_between :: "floats \<Rightarrow> simulator \<Rightarrow> nat \<Rightarrow> nat \<Rightarrow> outcome" where
  "sleep_between ar sim n i =
     (if i < n - 1
      then case py_div ar 1 (speed sim) of
             Inl e \<Rightarrow> ([], Some e)
           | Inr sleep_time \<Rightarrow> py_sleep StepSleep sleep_time
      else ([], None))"

text \<open>Lines 215-248: the body of the loop for the pair \<open>(i, coords)\<close>.\<close>

definition route_step ::
  "floats \<Rightarrow> simulator \<Rightarrow> network \<Rightarrow> constants \<Rightarrow> nat \<Rightarrow> coord \<Rightarrow> outcome" where
  "route_step ar sim net k i coords =
     (let (longitude, latitude) = coords;
          bin_index = find_bin ar (tolerance k) coords 0 (bins k);
          (sent, response) = update_location net i longitude latitude
      in then_do (sent @ [Print (status_line response)], None)
           (then_do (pause_at_bin sim bin_index)
                    (sleep_between ar sim (length (route k)) i)))"

text \<open>Line 214: the loop over \<^verbatim>\<open>enumerate(ROUTE_COORDINATES)\<close>, from index \<open>i\<close> on.\<close>

fun route_loop ::
  "floats \<Rightarrow> simulator \<Rightarrow> network \<Rightarrow> constants \<Rightarrow> nat \<Rightarrow> coord list \<Rightarrow> outcome" where
  "route_loop ar sim net k i [] = ([], None)"
| "route_loop ar sim net k i (coords # rest) =
     then_do (route_step ar sim net k i coords) (route_loop ar sim net k (i + 1) rest)"

definition drive_route :: "floats \<Rightarrow> simulator \<Rightarrow> network \<Rightarrow> constants \<Rightarrow> outcome" where
  "drive_route ar sim net k =
     then_do (reset_bin_fill_levels net (resets k), None)
             (route_loop ar sim net k 0 (route k))"

subsection \<open>Reading a trace\<close>

text \<open>The coordinates posted to the location endpoint, in order.\<close>

fun reports :: "event list \<Rightarrow> coord list" where
  "reports [] = []"
| "reports (PostLocation x y # es) = (x, y) # reports es"
| "reports (e # es) = reports es"

text \<open>The durations of the sleeps between two points, in order.\<close>

fun step_sleeps :: "event list \<Rightarrow> real list" where
  "step_sleeps [] = []"
| "step_sleeps (StepSleep t # es) = t # step_sleeps es"
| "step_sleeps (e # es) = step_sleeps es"

text \<open>A network on which every request succeeds with an empty JSON object.\<close>

definition reliable_network :: network where
  "reliable_network =
     \<lparr> put_fill_level = (\<lambda>bin_id fill_level. Response []),
       post_location = (\<lambda>i coords. Response []) \<rparr>"

subsection \<open>The densifier in the words of the specification\<close>

text \<open>
  For each consecutive pair \<open>(A, B)\<close>: the distance \<open>d\<close>, \<open>n = max(1, floor(d / s))\<close>,
  the interpolants at the ratios \<open>j / n\<close> for \<open>j = 1..n-1\<close> rounded to six decimals,
  then \<open>B\<close>; the first point of the route comes first. The arithmetic is that of
  floats, each operation rounded.
\<close>

definition euclidean :: "floats \<Rightarrow> coord \<Rightarrow> coord \<Rightarrow> real" where
  "euclidean ar A B =
     rnd ar (sqrt (rnd ar (square ar (rnd ar (fst B - fst A)) +
                           square ar (rnd ar (snd B - snd A)))))"

text \<open>The linear interpolant of the numbers \<open>a\<close> and \<open>b\<close> at the ratio \<open>j / n\<close>.\<close>

definition interpolant :: "floats \<Rightarrow> real \<Rightarrow> real \<Rightarrow> int \<Rightarrow> int \<Rightarrow> real" where
  "interpolant ar a b n j = rnd ar (a + rnd ar (rnd ar (of_int j / of_int n) * rnd ar (b - a)))"

text \<open>
  \<open>y\<close> is \<open>x\<close> rounded to 6 decimal places: the float of a multiple of \<open>10^-6\<close> that is
  nearest to \<open>x\<close>. The specification does not say which of two nearest multiples is
  taken.
\<close>

definition rounded_to_6_places :: "floats \<Rightarrow> real \<Rightarrow> real \<Rightarrow> bool" where
  "rounded_to_6_places ar x y =
     (\<exists>m :: int. \<bar>of_int m / 10 ^ 6 - x\<bar> \<le> 1 / (2 * 10 ^ 6) \<and> y = rnd ar (of_int m / 10 ^ 6))"

definition spec_parts :: "floats \<Rightarrow> coord \<Rightarrow> coord \<Rightarrow> real \<Rightarrow> int" where
  "spec_parts ar A B s = max 1 \<lfloor>rnd ar (euclidean ar A B / s)\<rfloor>"

definition spec_interpolants :: "floats \<Rightarrow> coord \<Rightarrow> coord \<Rightarrow> real \<Rightarrow> coord list" where
  "spec_interpolants ar A B s =
     (let n = spec_parts ar A B s
      in map (\<lambda>j. (py_round6 ar (interpolant ar (fst A) (fst B) n j),
                   py_round6 ar (interpolant ar (snd A) (snd B) n j)))
             [1..n - 1])"

definition densify_spec :: "floats \<Rightarrow> coord list \<Rightarrow> real \<Rightarrow> coord list" where
  "densify_spec ar r s =
     hd r # concat (map (\<lambda>(A, B). spec_interpolants ar A B s @ [B]) (zip r (tl r)))"

section \<open>Properties of the float arithmetic\<close>

lemma rnd_exact [simp]: "rnd exact x = x"
  by transfer simp

lemma square_exact [simp]: "square exact x = x\<^sup>2"
  by transfer simp

lemma rnd_zero [simp]: "rnd ar 0 = 0"
  by transfer auto

lemma square_nonneg [simp]: "0 \<le> square ar x"
  by transfer auto

lemma square_zero [simp]: "square ar 0 = 0"
  by transfer auto

lemma rnd_nonneg: "0 \<le> x \<Longrightarrow> 0 \<le> rnd ar x"
  by transfer auto

lemma rnd_binary64 [simp]: "rnd binary64 x = round_binary64 x"
  by transfer simp

lemma square_binary64 [simp]: "square binary64 x = round_binary64 (x * x)"
  by transfer simp

text \<open>The argument of the square root in \<open>distance\<close> is never negative.\<close>

lemma sum_of_squares_nonneg: "0 \<le> rnd ar (square ar x + square ar y)"
  by (rule rnd_nonneg) (simp add: add_nonneg_nonneg)

lemma literals_exact [simp]: "literals exact ps = ps"
  by (induction ps) (auto simp: literals_def)

section \<open>Properties of the arithmetic of doubles\<close>

lemma pow2_powr: "(2 :: real) powr (real p - real n) = 2 ^ p / 2 ^ n"
proof -
  have "(2 :: real) powr (real p - real n) = 2 powr real p / 2 powr real n"
    by (rule powr_diff)
  then show ?thesis by (simp add: powr_realpow)
qed

lemma floor_log_bin:
  assumes "2 ^ p \<le> y * 2 ^ n" and "y * 2 ^ n < 2 ^ Suc p"
  shows "\<lfloor>log 2 y\<rfloor> = int p - int n"
proof -
  have pos: "0 < y"
  proof (rule ccontr)
    assume "\<not> 0 < y"
    then have "y * 2 ^ n \<le> 0" by (simp add: mult_le_0_iff)
    moreover have "(0 :: real) < 2 ^ p" by simp
    ultimately show False using assms(1) by linarith
  qed
  have "2 ^ p / 2 ^ n \<le> y"
    using assms(1) by (simp add: pos_divide_le_eq)
  then have lo: "2 powr of_int (int p - int n) \<le> y"
    using pow2_powr [of p n] by simp
  have "y < 2 ^ Suc p / 2 ^ n"
    using assms(2) by (simp add: pos_less_divide_eq)
  then have "y < 2 powr (real (Suc p) - real n)"
    using pow2_powr [of "Suc p" n] by simp
  then have hi: "y < 2 powr (of_int (int p - int n) + 1)"
    by (simp add: algebra_simps)
  show ?thesis
    using lo hi pos by (subst floor_log_eq_powr_iff) simp_all
qed

text \<open>A number with \<open>2^52 \<le> |x| * 2^n < 2^53\<close> is rounded to a multiple of \<open>2^-n\<close>.\<close>

lemma round_binary64_eval:
  assumes "2 ^ 52 \<le> \<bar>x\<bar> * 2 ^ n" and "\<bar>x\<bar> * 2 ^ n < 2 ^ Suc 52"
  shows "round_binary64 x = of_int (round_half_even (x * 2 ^ n)) / 2 ^ n"
proof -
  have "\<lfloor>log 2 \<bar>x\<bar>\<rfloor> = int 52 - int n"
    using assms by (rule floor_log_bin)
  then have "ulp x = 2 powr (real 0 - real n)"
    by (simp add: ulp_def)
  then have u: "ulp x = 1 / 2 ^ n"
    unfolding pow2_powr by simp
  have "x \<noteq> 0" using assms(1) by auto
  then show ?thesis by (simp add: round_binary64_def u)
qed

text \<open>
  On the boundary of the square of a bin, doubles and exact arithmetic part. The
  latitudes 40.7723 and 40.7728 are 0.0005 apart as decimals, which is not below the
  tolerance 0.0005; the doubles nearest to them are 0.000499999999995282 apart, which
  is below the double nearest to 0.0005. The test of lines 175-176 holds in
  \<open>binary64\<close> and fails in \<open>exact\<close>.
\<close>

lemma double_40_7723: "round_binary64 40.7723 = 5738191096469940 / 2 ^ 47"
  by (subst round_binary64_eval [where n = 47]) (simp_all add: round_half_even_def Let_def)

lemma double_40_7728: "round_binary64 40.7728 = 5738261465214117 / 2 ^ 47"
  by (subst round_binary64_eval [where n = 47]) (simp_all add: round_half_even_def Let_def)

lemma double_0_0005: "round_binary64 0.0005 = 4611686018427388 / 2 ^ 63"
  by (subst round_binary64_eval [where n = 63]) (simp_all add: round_half_even_def Let_def)

lemma double_difference:
  "round_binary64 (5738191096469940 / 2 ^ 47 - 5738261465214117 / 2 ^ 47)
     = - (4611686018383872 / 2 ^ 63)"
  by (subst round_binary64_eval [where n = 63]) (simp_all add: round_half_even_def Let_def)

lemma boundary_match_in_binary64:
  "is_near_waypoint binary64 (COORDINATE_TOLERANCE binary64)
     (x, round_binary64 40.7723) (x, round_binary64 40.7728) \<and>
   \<not> is_near_waypoint exact (COORDINATE_TOLERANCE exact) (x, 40.7723) (x, 40.7728)"
proof -
  have lon: "\<bar>round_binary64 (x - x)\<bar> < round_binary64 0.0005"
    unfolding double_0_0005 by (simp add: round_binary64_def)
  have "round_binary64 (round_binary64 40.7723 - round_binary64 40.7728)
          = - (4611686018383872 / 2 ^ 63)"
    unfolding double_40_7723 double_40_7728 by (rule double_difference)
  then have lat: "\<bar>round_binary64 (round_binary64 40.7723 - round_binary64 40.7728)\<bar>
          < round_binary64 0.0005"
    unfolding double_0_0005 by simp
  have a: "is_near_waypoint binary64 (COORDINATE_TOLERANCE binary64)
     (x, round_binary64 40.7723) (x, round_binary64 40.7728)"
    unfolding is_near_waypoint_def COORDINATE_TOLERANCE_def rnd_binary64 fst_conv snd_conv
    using lon lat by (rule conjI)
  have b: "\<not> is_near_waypoint exact (COORDINATE_TOLERANCE exact) (x, 40.7723) (x, 40.7728)"
    by (simp add: is_near_waypoint_def COORDINATE_TOLERANCE_def)
  from a b show ?thesis by (rule conjI)
qed

text \<open>
  So the search for the position \<open>(-73.959, 40.7723)\<close> among the bins of the script finds
  the third bin in \<open>binary64\<close> and none in \<open>exact\<close>.
\<close>

lemma double_73_959: "round_binary64 (- 73.959) = - (5204401950635852 / 2 ^ 46)"
  by (subst round_binary64_eval [where n = 46]) (simp_all add: round_half_even_def Let_def)

lemma double_73_9599: "round_binary64 (- 73.9599) = - (5204465282505612 / 2 ^ 46)"
  by (subst round_binary64_eval [where n = 46]) (simp_all add: round_half_even_def Let_def)

lemma double_73_9603: "round_binary64 (- 73.9603) = - (5204493430003283 / 2 ^ 46)"
  by (subst round_binary64_eval [where n = 46]) (simp_all add: round_half_even_def Let_def)

lemma double_longitude_difference_0:
  "round_binary64 (- (5204401950635852 / 2 ^ 46) - - (5204465282505612 / 2 ^ 46))
     = 8301034833182720 / 2 ^ 63"
  by (subst round_binary64_eval [where n = 63]) (simp_all add: round_half_even_def Let_def)

lemma double_longitude_difference_1:
  "round_binary64 (- (5204401950635852 / 2 ^ 46) - - (5204493430003283 / 2 ^ 46))
     = 5995191823958016 / 2 ^ 62"
  by (subst round_binary64_eval [where n = 62]) (simp_all add: round_half_even_def Let_def)

lemma boundary_search_in_binary64:
  "find_bin binary64 (COORDINATE_TOLERANCE binary64)
     (round_binary64 (- 73.959), round_binary64 40.7723) 0 (BIN_COORDINATES binary64) = Some 2 \<and>
   find_bin exact (COORDINATE_TOLERANCE exact) (- 73.959, 40.7723) 0 (BIN_COORDINATES exact)
     = None"
proof -
  let ?p = "(round_binary64 (- 73.959), round_binary64 40.7723)"
  let ?t = "COORDINATE_TOLERANCE binary64"
  have bins: "BIN_COORDINATES binary64 =
      [(round_binary64 (- 73.9599), round_binary64 40.7778),
       (round_binary64 (- 73.9603), round_binary64 40.7746),
       (round_binary64 (- 73.959), round_binary64 40.7728)]"
    by (simp add: BIN_COORDINATES_def literals_def)
  have t: "?t = 4611686018427388 / 2 ^ 63"
    unfolding COORDINATE_TOLERANCE_def rnd_binary64 by (rule double_0_0005)
  have "\<not> \<bar>round_binary64 (round_binary64 (- 73.959) - round_binary64 (- 73.9599))\<bar> < ?t"
    unfolding t double_73_959 double_73_9599 double_longitude_difference_0 by simp
  then have n0: "\<not> is_near_waypoint binary64 ?t ?p
      (round_binary64 (- 73.9599), round_binary64 40.7778)"
    by (simp add: is_near_waypoint_def)
  have "\<not> \<bar>round_binary64 (round_binary64 (- 73.959) - round_binary64 (- 73.9603))\<bar> < ?t"
    unfolding t double_73_959 double_73_9603 double_longitude_difference_1 by simp
  then have n1: "\<not> is_near_waypoint binary64 ?t ?p
      (round_binary64 (- 73.9603), round_binary64 40.7746)"
    by (simp add: is_near_waypoint_def)
  have n2: "is_near_waypoint binary64 ?t ?p (round_binary64 (- 73.959), round_binary64 40.7728)"
    using boundary_match_in_binary64 [of "round_binary64 (- 73.959)"] by (rule conjunct1)
  have a: "find_bin binary64 ?t ?p 0 (BIN_COORDINATES binary64) = Some 2"
    unfolding bins using n0 n1 n2 by simp
  have b: "find_bin exact (COORDINATE_TOLERANCE exact) (- 73.959, 40.7723) 0
      (BIN_COORDINATES exact) = None"
    by (simp add: BIN_COORDINATES_def COORDINATE_TOLERANCE_def is_near_waypoint_def)
  from a b show ?thesis by (rule conjI)
qed


lemma round_half_even_eqI:
  assumes "of_int m - 1 / 2 < y" and "y < of_int m + 1 / 2"
  shows "round_half_even y = m"
proof -
  have fl: "of_int \<lfloor>y\<rfloor> \<le> y" "y < of_int \<lfloor>y\<rfloor> + 1" by linarith+
  have "of_int \<lfloor>y\<rfloor> < (of_int m :: real) + 1" using fl(1) assms(2) by linarith
  then have "of_int \<lfloor>y\<rfloor> < (of_int (m + 1) :: real)" by simp
  then have up: "\<lfloor>y\<rfloor> < m + 1" by (simp only: of_int_less_iff)
  have "(of_int m :: real) - 2 < of_int \<lfloor>y\<rfloor>" using fl(2) assms(1) by linarith
  then have "(of_int (m - 2) :: real) < of_int \<lfloor>y\<rfloor>" by simp
  then have lo: "m - 2 < \<lfloor>y\<rfloor>" by (simp only: of_int_less_iff)
  from up lo have "\<lfloor>y\<rfloor> = m \<or> \<lfloor>y\<rfloor> = m - 1" by linarith
  then show ?thesis
  proof
    assume "\<lfloor>y\<rfloor> = m"
    then show ?thesis using assms by (simp add: round_half_even_def Let_def)
  next
    assume "\<lfloor>y\<rfloor> = m - 1"
    then show ?thesis using assms by (simp add: round_half_even_def Let_def)
  qed
qed

text \<open>The double of a square root, from bounds on the radicand.\<close>

lemma round_binary64_sqrt:
  assumes "(of_int m - 1 / 2)\<^sup>2 < q * (2 ^ n)\<^sup>2" and "q * (2 ^ n)\<^sup>2 < (of_int m + 1 / 2)\<^sup>2"
    and "2 ^ 52 < m" and "m < 2 ^ Suc 52"
  shows "round_binary64 (sqrt q) = of_int m / 2 ^ n"
proof -
  let ?y = "sqrt q * 2 ^ n"
  have m1: "(2 :: real) ^ 52 + 1 \<le> of_int m"
  proof -
    from assms(3) have "2 ^ 52 + 1 \<le> m" by linarith
    then have "(of_int (2 ^ 52 + 1) :: real) \<le> of_int m" by (simp only: of_int_le_iff)
    then show ?thesis by simp
  qed
  have m2: "of_int m + 1 \<le> (2 :: real) ^ Suc 52"
  proof -
    from assms(4) have "m + 1 \<le> 2 ^ Suc 52" by linarith
    then have "(of_int (m + 1) :: real) \<le> of_int (2 ^ Suc 52)" by (simp only: of_int_le_iff)
    then show ?thesis by simp
  qed
  have y: "?y = sqrt (q * (2 ^ n)\<^sup>2)"
    by (simp add: real_sqrt_mult)
  have lo: "of_int m - 1 / 2 < ?y"
    unfolding y using assms(1) by (rule real_less_rsqrt)
  have "0 \<le> (of_int m :: real) + 1 / 2" using m1 by (simp add: add_nonneg_nonneg)
  then have hi: "?y < of_int m + 1 / 2"
    unfolding y using assms(2) by (intro real_less_lsqrt)
  have nonneg: "0 \<le> sqrt q"
  proof -
    have "(0 :: real) \<le> 2 ^ 52" by simp
    then have "0 < ?y" using lo m1 by linarith
    then show ?thesis by (simp add: zero_less_mult_iff)
  qed
  have ab: "\<bar>sqrt q\<bar> = sqrt q" using nonneg by simp
  have "2 ^ 52 \<le> \<bar>sqrt q\<bar> * 2 ^ n" "\<bar>sqrt q\<bar> * 2 ^ n < 2 ^ Suc 52"
    unfolding ab using lo hi m1 m2 by linarith+
  then have "round_binary64 (sqrt q) = of_int (round_half_even ?y) / 2 ^ n"
    by (rule round_binary64_eval)
  moreover have "round_half_even ?y = m" using lo hi by (rule round_half_even_eqI)
  ultimately show ?thesis by simp
qed


text \<open>
  The number of parts of a segment can differ as well. For the segment from \<open>(0, 0)\<close>
  to \<open>(0, 0.3)\<close> and the spacing factor 0.1 the distance is the double 0.3, the
  quotient by the double 0.1 is 2.9999999999999996, and \<open>num_points\<close> is 2 in
  \<open>binary64\<close>; in \<open>exact\<close> the quotient is 3.
\<close>

lemma double_0_3: "round_binary64 0.3 = 5404319552844595 / 2 ^ 54"
  by (subst round_binary64_eval [where n = 54]) (simp_all add: round_half_even_def Let_def)

lemma double_0_1: "round_binary64 0.1 = 7205759403792794 / 2 ^ 56"
  by (subst round_binary64_eval [where n = 56]) (simp_all add: round_half_even_def Let_def)

lemma double_0_3_fixed:
  "round_binary64 (5404319552844595 / 2 ^ 54 - 0) = 5404319552844595 / 2 ^ 54"
  by (subst round_binary64_eval [where n = 54]) (simp_all add: round_half_even_def Let_def)

lemma double_0_3_squared:
  "round_binary64 (5404319552844595 / 2 ^ 54 * (5404319552844595 / 2 ^ 54))
     = 6485183463413514 / 2 ^ 56"
  by (subst round_binary64_eval [where n = 56]) (simp_all add: round_half_even_def Let_def)

lemma double_0_09_fixed:
  "round_binary64 (0 + 6485183463413514 / 2 ^ 56) = 6485183463413514 / 2 ^ 56"
  by (subst round_binary64_eval [where n = 56]) (simp_all add: round_half_even_def Let_def)

lemma double_sqrt_0_09:
  "round_binary64 (sqrt (6485183463413514 / 2 ^ 56)) = 5404319552844595 / 2 ^ 54"
  using round_binary64_sqrt [of 5404319552844595 "6485183463413514 / 2 ^ 56" 54]
  by (simp add: power2_eq_square)

lemma double_quotient:
  "round_binary64 (5404319552844595 / 2 ^ 54 / (7205759403792794 / 2 ^ 56))
     = 6755399441055743 / 2 ^ 51"
  by (subst round_binary64_eval [where n = 51]) (simp_all add: round_half_even_def Let_def)

lemma round_binary64_zero: "round_binary64 0 = 0"
  by (simp add: round_binary64_def)

lemma quotient_parts_in_binary64:
  "num_points binary64 (0, 0) (0, round_binary64 0.3) (round_binary64 0.1) = Inr 2 \<and>
   num_points exact (0, 0) (0, 0.3) 0.1 = Inr 3"
proof -
  have d: "distance binary64 (0, 0) (0, round_binary64 0.3) = 5404319552844595 / 2 ^ 54"
    unfolding distance_def rnd_binary64 square_binary64 fst_conv snd_conv double_0_3
      double_0_3_fixed double_0_3_squared
    by (simp only: diff_self mult_zero_left round_binary64_zero double_0_09_fixed
        double_sqrt_0_09)
  have "(7205759403792794 :: real) / 2 ^ 56 \<noteq> 0" by simp
  then have a: "num_points binary64 (0, 0) (0, round_binary64 0.3) (round_binary64 0.1) = Inr 2"
    unfolding num_points_def py_div_def d double_0_1 rnd_binary64 double_quotient
    by (simp add: py_int_def)
  have "sqrt ((3 / 10)\<^sup>2) = \<bar>3 / 10\<bar>" by (rule real_sqrt_abs)
  then have "sqrt (9 / 100) = 3 / 10" by (simp add: power2_eq_square)
  then have b: "num_points exact (0, 0) (0, 0.3) 0.1 = Inr 3"
    by (simp add: num_points_def py_div_def distance_def py_int_def power2_eq_square)
  from a b show ?thesis by (rule conjI)
qed

section \<open>Properties of the densifier\<close>

subsection \<open>The loop computes the chain of the specification\<close>

lemma max_py_int: "max 1 (py_int q) = max 1 \<lfloor>q\<rfloor>"
proof (cases "0 \<le> q")
  case True
  then show ?thesis by (simp add: py_int_def)
next
  case False
  then have "\<lceil>q\<rceil> \<le> 0" "\<lfloor>q\<rfloor> \<le> 0" by (simp_all add: ceiling_le_iff floor_le_iff)
  with False show ?thesis by (simp add: py_int_def)
qed

lemma euclidean_distance: "euclidean ar A B = distance ar A B"
  by (simp add: euclidean_def distance_def)

lemma num_points_nonzero:
  "s \<noteq> 0 \<Longrightarrow> num_points ar a b s = Inr (spec_parts ar a b s)"
  by (simp add: num_points_def py_div_def spec_parts_def euclidean_distance max_py_int)

lemma intermediate_points_spec:
  "intermediate_points ar a b (spec_parts ar a b s) = spec_interpolants ar a b s"
  by (simp add: intermediate_points_def spec_interpolants_def intermediate_def interpolant_def
      Let_def)

lemma num_points_zero: "num_points ar a b 0 = Inl ZeroDivisionError"
  by (simp add: num_points_def py_div_def)

lemma segment_body_nonzero:
  "s \<noteq> 0 \<Longrightarrow> segment_body ar cs s r i =
     Inr (r @ spec_interpolants ar (cs ! i) (cs ! Suc i) s
            @ (if i < length cs - 2 then [cs ! Suc i] else []))"
  by (simp add: segment_body_def num_points_nonzero intermediate_points_spec Let_def)

lemma segment_loop_nonzero:
  "s \<noteq> 0 \<Longrightarrow> segment_loop ar cs s js r =
     Inr (r @ concat (map (\<lambda>i. spec_interpolants ar (cs ! i) (cs ! Suc i) s
            @ (if i < length cs - 2 then [cs ! Suc i] else [])) js))"
  by (induction js arbitrary: r) (simp_all add: segment_body_nonzero)

lemma densify_spec_single [simp]: "densify_spec ar [a] s = [a]"
  by (simp add: densify_spec_def)

lemma densify_spec_Cons2 [simp]:
  "densify_spec ar (a # b # rest) s = a # spec_interpolants ar a b s @ densify_spec ar (b # rest) s"
  by (simp add: densify_spec_def)

lemma densify_spec_index:
  "cs \<noteq> [] \<Longrightarrow> densify_spec ar cs s =
     hd cs # concat (map (\<lambda>i. spec_interpolants ar (cs ! i) (cs ! Suc i) s @ [cs ! Suc i])
                          [0..<length cs - 1])"
proof (induction cs rule: induct_list012)
  case (3 a b rest)
  have "[0..<length (a # b # rest) - 1] = 0 # map Suc [0..<length (b # rest) - 1]"
    by (simp add: upt_conv_Cons map_Suc_upt del: upt_Suc)
  then show ?case using 3 by (simp add: comp_def del: upt_Suc)
qed simp_all

lemma evenly_space_densify:
  assumes "2 \<le> length cs" and "s \<noteq> 0"
  shows "evenly_space_coordinates ar cs s = Inr (densify_spec ar cs s)"
proof -
  obtain m where m: "length cs = Suc (Suc m)"
    using assms(1) by (metis Suc_le_D numeral_2_eq_2 Suc_le_mono)
  then have ne: "cs \<noteq> []" by auto
  have l: "last cs = cs ! Suc m"
    using m ne by (simp add: last_conv_nth)
  have h: "cs ! 0 = hd cs" using ne by (simp add: hd_conv_nth)
  have e: "map (\<lambda>i. spec_interpolants ar (cs ! i) (cs ! Suc i) s
            @ (if i < m then [cs ! Suc i] else [])) [0..<m]
      = map (\<lambda>i. spec_interpolants ar (cs ! i) (cs ! Suc i) s @ [cs ! Suc i]) [0..<m]"
    by (rule map_cong) simp_all
  show ?thesis
    using m l h assms(2)
    by (simp add: evenly_space_coordinates_def segment_loop_nonzero densify_spec_index[OF ne] e)
qed

lemma evenly_space_zero:
  "2 \<le> length cs \<Longrightarrow> evenly_space_coordinates ar cs 0 = Inl ZeroDivisionError"
proof -
  assume "2 \<le> length cs"
  then obtain m where m: "length cs = Suc (Suc m)"
    by (metis Suc_le_D numeral_2_eq_2 Suc_le_mono)
  then have "[0..<length cs - 1] = 0 # [1..<Suc m]" by (simp add: upt_conv_Cons del: upt_Suc)
  then show ?thesis using m
    by (simp add: evenly_space_coordinates_def segment_body_def num_points_zero del: upt_Suc)
qed


lemma densify_spec_nonempty: "densify_spec ar cs s \<noteq> []"
  by (simp add: densify_spec_def)

lemma hd_densify_spec: "hd (densify_spec ar cs s) = hd cs"
  by (simp add: densify_spec_def)

lemma last_densify_spec: "cs \<noteq> [] \<Longrightarrow> last (densify_spec ar cs s) = last cs"
  by (induction cs rule: induct_list012) (simp_all add: densify_spec_nonempty)

lemma subseq_densify_spec: "cs \<noteq> [] \<Longrightarrow> subseq cs (densify_spec ar cs s)"
  by (induction cs rule: induct_list012) (simp_all add: list_emb_append2)

lemma densify_spec_append:
  "xs \<noteq> [] \<Longrightarrow> densify_spec ar (xs @ a # ys) s = densify_spec ar (xs @ [a]) s @ tl (densify_spec ar (a # ys) s)"
proof (induction xs rule: induct_list012)
  case (2 x)
  then show ?case by (cases ys) simp_all
next
  case (3 x y zs)
  then show ?case by simp
qed simp

lemma sqrt_zero_segment: "distance ar A A = 0"
  by (simp add: distance_def)

lemma spec_parts_same: "spec_parts ar A A s = 1"
  by (simp add: spec_parts_def euclidean_distance sqrt_zero_segment)

lemma spec_parts_positive: "1 \<le> spec_parts ar A B s"
  by (simp add: spec_parts_def)

lemma spec_interpolants_same: "spec_interpolants ar A A s = []"
  by (simp add: spec_interpolants_def spec_parts_same)

lemma length_spec_interpolants:
  "length (spec_interpolants ar A B s) = nat (spec_parts ar A B s) - 1"
  using spec_parts_positive [of ar A B s]
  by (simp add: spec_interpolants_def Let_def nat_diff_distrib)

text \<open>In exact arithmetic the route the script walks is defined: its densification raises
  nothing.\<close>

lemma ROUTE_COORDINATES_defined:
  "ROUTE_COORDINATES exact = Inr (densify_spec exact (ORIGINAL_ROUTE_COORDINATES exact) 0.0002)"
  unfolding ROUTE_COORDINATES_def
  by (simp add: evenly_space_densify ORIGINAL_ROUTE_COORDINATES_def)


text \<open>The result of \<^verbatim>\<open>round(x, 6)\<close> is \<open>x\<close> rounded to 6 decimal places.\<close>

lemma round_half_even_close: "\<bar>of_int (round_half_even y) - y\<bar> \<le> 1 / 2"
proof -
  have "of_int \<lfloor>y\<rfloor> \<le> y" "y < of_int \<lfloor>y\<rfloor> + 1" by linarith+
  then show ?thesis
    by (auto simp: round_half_even_def Let_def abs_le_iff)
qed

lemma decimal_close:
  "\<bar>of_int (round_half_even (x * 10 ^ 6)) / 10 ^ 6 - x\<bar> \<le> 1 / (2 * 10 ^ 6)"
proof -
  have "of_int (round_half_even (x * 10 ^ 6)) / 10 ^ 6 - x
          = (of_int (round_half_even (x * 10 ^ 6)) - x * 10 ^ 6) / 10 ^ 6"
    by (simp add: diff_divide_distrib)
  then have "\<bar>of_int (round_half_even (x * 10 ^ 6)) / 10 ^ 6 - x\<bar>
          = \<bar>(of_int (round_half_even (x * 10 ^ 6)) - x * 10 ^ 6) / 10 ^ 6\<bar>"
    by (rule arg_cong)
  also have "\<dots> = \<bar>of_int (round_half_even (x * 10 ^ 6)) - x * 10 ^ 6\<bar> / 10 ^ 6"
    by (simp add: abs_divide)
  also have "\<dots> \<le> (1 / 2) / 10 ^ 6"
    by (rule divide_right_mono [OF round_half_even_close]) simp
  finally show ?thesis by simp
qed

lemma py_round6_rounded: "rounded_to_6_places ar x (py_round6 ar x)"
  unfolding rounded_to_6_places_def py_round6_def
  using decimal_close [of x] by (intro exI [of _ "round_half_even (x * 10 ^ 6)"]) simp

subsection \<open>Claims about evenly_space_coordinates\<close>

text \<open>
  C9. A route with fewer than two points is returned unchanged, for every spacing
  factor (zero and negative ones included) and every float arithmetic, and nothing is
  raised.
\<close>

theorem degenerate_route_unchanged:
  "length coordinates < 2 \<Longrightarrow> evenly_space_coordinates ar coordinates s = Inr coordinates"
  by (simp add: evenly_space_coordinates_def)

theorem degenerate_route_unchanged_witness:
  "length [(1, 2) :: coord] < 2 \<and> evenly_space_coordinates exact [(1, 2)] 0 = Inr [(1, 2)]"
  using degenerate_route_unchanged [of "[(1, 2)]" exact 0] by simp

text \<open>
  C7. For a route with at least two points and a positive spacing factor, the call
  returns a list whose first point is the first point of the route and whose last
  point is the last point of the route, in every float arithmetic.
\<close>

theorem densify_keeps_ends:
  "2 \<le> length r \<Longrightarrow> 0 < s \<Longrightarrow>
     \<exists>out. evenly_space_coordinates ar r s = Inr out \<and> out \<noteq> [] \<and>
           hd out = hd r \<and> last out = last r"
proof -
  assume a: "2 \<le> length r" "0 < s"
  then have "r \<noteq> []" by auto
  then show ?thesis
    using a by (simp add: evenly_space_densify densify_spec_nonempty hd_densify_spec last_densify_spec)
qed

theorem densify_keeps_ends_witness:
  "2 \<le> length [(0, 0), (0, 2 :: real)] \<and> (0 :: real) < 1 \<and>
   (\<exists>out. evenly_space_coordinates exact [(0, 0), (0, 2)] 1 = Inr out \<and> out \<noteq> [] \<and>
          hd out = (0, 0) \<and> last out = (0, 2))"
  using densify_keeps_ends [of "[(0, 0), (0, 2)]" 1 exact] by simp

text \<open>
  C10. The vertices of the route appear in the output unchanged and in their order:
  the route is a subsequence of the output. The call returns for every route of at
  least two points and non-zero spacing factor, and whenever it returns (also for a
  shorter route) the route is embedded in the result, in every float arithmetic. Only
  interpolated points are rounded: in the witness the vertex longitude 0.1234567 is
  kept, while the interpolated point between the two vertices carries 0.123457.
\<close>

theorem vertices_pass_through:
  "(2 \<le> length r \<and> s \<noteq> 0 \<longrightarrow> (\<exists>out. evenly_space_coordinates ar r s = Inr out)) \<and>
   (evenly_space_coordinates ar r s = Inr out \<longrightarrow> subseq r out)"
proof (cases "2 \<le> length r")
  case True
  then have ne: "r \<noteq> []" by auto
  show ?thesis
  proof (cases "s = 0")
    case True
    with \<open>2 \<le> length r\<close> show ?thesis by (simp add: evenly_space_zero)
  next
    case False
    with True ne show ?thesis by (auto simp: evenly_space_densify subseq_densify_spec)
  qed
next
  case False
  then show ?thesis by (auto simp: evenly_space_coordinates_def)
qed

theorem vertices_pass_through_witness:
  "2 \<le> length [(0.1234567, 0), (0.1234567, 2 :: real)] \<and> (1 :: real) \<noteq> 0 \<and>
   evenly_space_coordinates exact [(0.1234567, 0), (0.1234567, 2)] 1
     = Inr [(0.1234567, 0), (0.123457, 1), (0.1234567, 2)] \<and>
   subseq [(0.1234567, 0), (0.1234567, 2 :: real)]
          [(0.1234567, 0), (0.123457, 1), (0.1234567, 2)]"
proof -
  have e: "evenly_space_coordinates exact [(0.1234567, 0), (0.1234567, 2)] 1
     = Inr [(0.1234567, 0), (0.123457, 1), (0.1234567, 2)]"
    by (simp add: evenly_space_densify spec_interpolants_def spec_parts_def euclidean_def
        interpolant_def py_round6_def round_half_even_def Let_def)
  show ?thesis
    using vertices_pass_through [of "[(0.1234567, 0), (0.1234567, 2)]" 1 exact
        "[(0.1234567, 0), (0.123457, 1), (0.1234567, 2)]"] e
    by simp
qed

text \<open>
  C2. In every float arithmetic, for a route with at least two points and a positive
  spacing factor the loop of the source returns exactly the chain described by the
  specification (\<open>densify_spec\<close>): per consecutive pair \<open>(A, B)\<close>, with
  \<open>n = max(1, floor(d / s))\<close> for the distance \<open>d\<close>, the interior points followed by
  \<open>B\<close>. The source computes this \<open>n\<close> and emits exactly \<open>n - 1\<close> interior points, and
  each coordinate of the \<open>j\<close>-th of them is the linear interpolant at the ratio
  \<open>j / n\<close> rounded to 6 decimal places: the float of a multiple of \<open>10^-6\<close> nearest to
  the interpolant. In every arithmetic in which \<open>1/2\<close>, 1, 2 and 4 are floats and the
  square of 2 is 4, as it is with doubles, the route \<open>(0,0), (0,2)\<close> with spacing 1
  gives \<open>(0,0), (0,1), (0,2)\<close>.
\<close>

theorem densify_refines_spec:
  "(2 \<le> length r \<and> 0 < s \<longrightarrow> evenly_space_coordinates ar r s = Inr (densify_spec ar r s)) \<and>
   (0 < s \<longrightarrow> num_points ar A B s = Inr (spec_parts ar A B s)) \<and>
   spec_parts ar A B s = max 1 \<lfloor>rnd ar (euclidean ar A B / s)\<rfloor> \<and>
   intermediate_points ar A B (spec_parts ar A B s) = spec_interpolants ar A B s \<and>
   length (intermediate_points ar A B (spec_parts ar A B s)) = nat (spec_parts ar A B s) - 1 \<and>
   (1 \<le> j \<and> j \<le> spec_parts ar A B s - 1 \<longrightarrow>
      rounded_to_6_places ar (interpolant ar (fst A) (fst B) (spec_parts ar A B s) j)
        (fst (intermediate_points ar A B (spec_parts ar A B s) ! nat (j - 1))) \<and>
      rounded_to_6_places ar (interpolant ar (snd A) (snd B) (spec_parts ar A B s) j)
        (snd (intermediate_points ar A B (spec_parts ar A B s) ! nat (j - 1)))) \<and>
   (rnd ar (1 / 2) = 1 / 2 \<and> rnd ar 1 = 1 \<and> rnd ar 2 = 2 \<and> rnd ar 4 = 4 \<and> square ar 2 = 4 \<longrightarrow>
      evenly_space_coordinates ar [(0, 0), (0, 2)] 1 = Inr [(0, 0), (0, 1), (0, 2)])"
proof -
  let ?n = "spec_parts ar A B s"
  have example: "evenly_space_coordinates ar [(0, 0), (0, 2)] 1 = Inr [(0, 0), (0, 1), (0, 2)]"
    if f: "rnd ar (1 / 2) = 1 / 2 \<and> rnd ar 1 = 1 \<and> rnd ar 2 = 2 \<and> rnd ar 4 = 4 \<and> square ar 2 = 4"
  proof -
    have two: "spec_parts ar (0, 0) (0, 2) 1 = 2"
      using f by (simp add: spec_parts_def euclidean_def)
    have "spec_interpolants ar (0, 0) (0, 2) 1 = [(0, 1)]"
      using f by (simp add: spec_interpolants_def two interpolant_def py_round6_def
          round_half_even_def Let_def)
    then show ?thesis by (simp add: evenly_space_densify)
  qed
  have len: "length (intermediate_points ar A B ?n) = nat ?n - 1"
    using length_spec_interpolants [of ar A B s] by (simp add: intermediate_points_spec)
  have pts: "rounded_to_6_places ar (interpolant ar (fst A) (fst B) ?n j)
        (fst (intermediate_points ar A B ?n ! nat (j - 1))) \<and>
      rounded_to_6_places ar (interpolant ar (snd A) (snd B) ?n j)
        (snd (intermediate_points ar A B ?n ! nat (j - 1)))"
    if j: "1 \<le> j" "j \<le> ?n - 1"
  proof -
    from j have "1 + int (nat (j - 1)) \<le> ?n - 1" "1 + int (nat (j - 1)) = j" by simp_all
    then have nth: "[1..?n - 1] ! nat (j - 1) = j"
      using nth_upto [of 1 "nat (j - 1)" "?n - 1"] by simp
    have inb: "nat (j - 1) < length [1..?n - 1]" using j by simp
    have "intermediate_points ar A B ?n ! nat (j - 1) = intermediate ar A B ?n j"
      unfolding intermediate_points_def using nth_map [OF inb, of "intermediate ar A B ?n"] nth
      by simp
    then show ?thesis
      by (simp add: intermediate_def interpolant_def Let_def py_round6_rounded)
  qed
  have parts: "?n = max 1 \<lfloor>rnd ar (euclidean ar A B / s)\<rfloor>"
    by (simp add: spec_parts_def)
  have whole: "2 \<le> length r \<and> 0 < s \<longrightarrow>
      evenly_space_coordinates ar r s = Inr (densify_spec ar r s)"
    by (simp add: evenly_space_densify)
  have count: "0 < s \<longrightarrow> num_points ar A B s = Inr ?n"
    by (simp add: num_points_nonzero)
  note same = intermediate_points_spec [of ar A B s]
  from whole count parts same len pts example show ?thesis by blast
qed

theorem densify_refines_spec_witness:
  "2 \<le> length [(0, 0), (0, 1 :: real)] \<and> (0 :: real) < 3 / 10 \<and>
   spec_parts exact (0, 0) (0, 1) (3 / 10) = 3 \<and>
   evenly_space_coordinates exact [(0, 0), (0, 1)] (3 / 10)
     = Inr [(0, 0), (0, 333333 / 10 ^ 6), (0, 666667 / 10 ^ 6), (0, 1)] \<and>
   interpolant exact 0 1 3 2 = 2 / 3 \<and>
   rounded_to_6_places exact (2 / 3) (666667 / 10 ^ 6) \<and>
   evenly_space_coordinates exact [(0, 0), (0, 2)] 1 = Inr [(0, 0), (0, 1), (0, 2)] \<and>
   spec_parts binary64 (0, 0) (0, round_binary64 0.3) (round_binary64 0.1) = 2"
proof -
  have "0 < round_binary64 0.1" unfolding double_0_1 by simp
  then have b64: "spec_parts binary64 (0, 0) (0, round_binary64 0.3) (round_binary64 0.1) = 2"
    using densify_refines_spec [where ar = binary64 and A = "(0, 0)"
        and B = "(0, round_binary64 0.3)" and s = "round_binary64 0.1"]
      quotient_parts_in_binary64
    by simp
  have n: "spec_parts exact (0, 0) (0, 1) (3 / 10) = 3"
    by (simp add: spec_parts_def euclidean_def)
  have i: "interpolant exact 0 1 3 2 = 2 / 3"
    by (simp add: interpolant_def)
  have p: "intermediate_points exact (0, 0) (0, 1) 3 = [(0, 333333 / 10 ^ 6), (0, 666667 / 10 ^ 6)]"
    by (simp add: intermediate_points_def intermediate_def py_round6_def round_half_even_def
        Let_def upto.simps)
  from n p have d: "densify_spec exact [(0, 0), (0, 1)] (3 / 10)
      = [(0, 0), (0, 333333 / 10 ^ 6), (0, 666667 / 10 ^ 6), (0, 1)]"
    using intermediate_points_spec [of exact "(0, 0)" "(0, 1)" "3 / 10"] by simp
  show ?thesis
    using densify_refines_spec [of "[(0, 0), (0, 1)]" "3 / 10" exact "(0, 0)" "(0, 1)" 2] n i p d
      b64
    by simp
qed

text \<open>
  C3, as stated, fails: for the route \<open>(0,0), (0,0), (0,2)\<close> the output holds the
  point \<open>(0,0)\<close> twice, once for each of its occurrences in the route.
\<close>

theorem duplicate_waypoint_counterexample:
  "evenly_space_coordinates exact [(0, 0), (0, 0), (0, 2)] 1
     = Inr [(0, 0), (0, 0), (0, 1), (0, 2)] \<and>
   count_list [(0, 0), (0, 0), (0, 1), (0, 2 :: real)] (0, 0) = 2"
  by (simp add: evenly_space_densify spec_interpolants_def spec_parts_def euclidean_def
      interpolant_def py_round6_def round_half_even_def Let_def)

text \<open>
  C3, amended. For a non-zero spacing factor and in every float arithmetic, a segment
  between two identical waypoints \<open>A, A\<close> has \<open>num_points = 1\<close> and contributes no
  interpolated point, and \<open>A\<close> is emitted once for each of its two occurrences: the
  output is the chain of the route up to the first \<open>A\<close>, which ends with \<open>A\<close>, followed
  by the chain of the route from the second \<open>A\<close>, which starts with \<open>A\<close>. Adjacent
  duplicates of the route are kept, not merged.
\<close>

theorem duplicate_waypoint_kept:
  "s \<noteq> 0 \<Longrightarrow>
     num_points ar A A s = Inr 1 \<and> intermediate_points ar A A 1 = [] \<and>
     evenly_space_coordinates ar (pre @ [A, A] @ post) s
       = Inr (densify_spec ar (pre @ [A]) s @ densify_spec ar (A # post) s) \<and>
     last (densify_spec ar (pre @ [A]) s) = A \<and> hd (densify_spec ar (A # post) s) = A"
proof -
  assume s: "s \<noteq> 0"
  have n: "num_points ar A A s = Inr 1"
    using s by (simp add: num_points_nonzero spec_parts_same)
  have i: "intermediate_points ar A A 1 = []"
    by (simp add: intermediate_points_def)
  have d: "densify_spec ar (pre @ A # A # post) s
             = densify_spec ar (pre @ [A]) s @ densify_spec ar (A # post) s"
  proof (cases pre)
    case Nil
    then show ?thesis by (simp add: spec_interpolants_same)
  next
    case (Cons p ps)
    then show ?thesis
      using densify_spec_append [of pre ar A "A # post" s] by (simp add: spec_interpolants_same)
  qed
  have "2 \<le> length (pre @ [A, A] @ post)" by simp
  then have "evenly_space_coordinates ar (pre @ [A, A] @ post) s
       = Inr (densify_spec ar (pre @ [A]) s @ densify_spec ar (A # post) s)"
    using s d by (simp add: evenly_space_densify)
  then show ?thesis using n i by (simp add: last_densify_spec hd_densify_spec)
qed

theorem duplicate_waypoint_kept_witness:
  "(2 :: real) \<noteq> 0 \<and>
   evenly_space_coordinates exact ([(0, 3)] @ [(0, 0), (0, 0)] @ [(0, 2)]) 2
     = Inr ([(0, 3), (0, 0)] @ [(0, 0), (0, 2)])"
proof -
  have "sqrt 9 = 3" using real_sqrt_abs [of 3] by simp
  then have "densify_spec exact ([(0, 3)] @ [(0, 0)]) 2 = [(0, 3), (0, 0)]"
    and "densify_spec exact ((0, 0) # [(0, 2)]) 2 = [(0, 0), (0, 2)]"
    by (simp_all add: spec_interpolants_def spec_parts_def euclidean_def)
  then show ?thesis
    using duplicate_waypoint_kept [of 2 exact "(0, 0)" "[(0, 3)]" "[(0, 2)]"] by simp
qed

subsection \<open>Spacing of consecutive points in exact arithmetic\<close>













section \<open>Properties of the waypoint search\<close>

lemma find_bin_None:
  "find_bin ar tol p k bs = None \<longleftrightarrow> (\<forall>j<length bs. \<not> is_near_waypoint ar tol p (bs ! j))"
proof (induction bs arbitrary: k)
  case Nil
  then show ?case by simp
next
  case (Cons b bs)
  show ?case
  proof (cases "is_near_waypoint ar tol p b")
    case True
    then show ?thesis by auto
  next
    case False
    then show ?thesis using Cons [of "k + 1"] by (auto simp: less_Suc_eq_0_disj)
  qed
qed

lemma find_bin_Some:
  "find_bin ar tol p k bs = Some i \<longleftrightarrow>
     k \<le> i \<and> i - k < length bs \<and> is_near_waypoint ar tol p (bs ! (i - k)) \<and>
     (\<forall>j<i - k. \<not> is_near_waypoint ar tol p (bs ! j))"
proof (induction bs arbitrary: k)
  case Nil
  then show ?case by simp
next
  case (Cons b bs)
  show ?case
  proof (cases "is_near_waypoint ar tol p b")
    case True
    then have "\<And>n. 0 < n \<Longrightarrow> \<exists>j<n. is_near_waypoint ar tol p ((b # bs) ! j)"
      by (intro exI [of _ 0]) simp
    then show ?thesis using True by (cases "i = k") auto
  next
    case False
    show ?thesis
    proof (cases "i \<le> k")
      case True
      then show ?thesis using False Cons [of "k + 1"] by auto
    next
      case gt: False
      then obtain d where d: "i - k = Suc d" "i - (k + 1) = d" "k + 1 \<le> i"
        by (metis Suc_diff_Suc diff_Suc_eq_diff_pred add.commute plus_1_eq_Suc not_le Suc_leI diff_diff_left)
      show ?thesis using False Cons [of "k + 1"] d gt
        by (auto simp: less_Suc_eq_0_disj)
    qed
  qed
qed

text \<open>
  C5. The search returns index \<open>i\<close> exactly when stop \<open>i\<close> is the first stop, in the
  given order, whose square region strictly contains the position: both coordinate
  differences, as the float subtractions of lines 175-176 return them, are below the
  tolerance in absolute value. It returns None exactly when no stop's region contains
  the position, and when both stops \<open>A\<close> and \<open>B\<close> of a two-stop list cover the position
  the result is \<open>A\<close>, index 0. This holds in every float arithmetic and for every
  tolerance, also a non-positive one, for which no region contains anything.
\<close>

theorem match_returns_first_covering_stop:
  "(find_bin ar tol position 0 stops = Some i \<longleftrightarrow>
      i < length stops \<and>
      (\<bar>rnd ar (fst position - fst (stops ! i))\<bar> < tol \<and> \<bar>rnd ar (snd position - snd (stops ! i))\<bar> < tol) \<and>
      (\<forall>j<i. \<not> (\<bar>rnd ar (fst position - fst (stops ! j))\<bar> < tol \<and>
                  \<bar>rnd ar (snd position - snd (stops ! j))\<bar> < tol))) \<and>
   (find_bin ar tol position 0 stops = None \<longleftrightarrow>
      (\<forall>j<length stops. \<not> (\<bar>rnd ar (fst position - fst (stops ! j))\<bar> < tol \<and>
                             \<bar>rnd ar (snd position - snd (stops ! j))\<bar> < tol))) \<and>
   (\<bar>rnd ar (fst position - fst A)\<bar> < tol \<and> \<bar>rnd ar (snd position - snd A)\<bar> < tol \<and>
    \<bar>rnd ar (fst position - fst B)\<bar> < tol \<and> \<bar>rnd ar (snd position - snd B)\<bar> < tol
      \<longrightarrow> find_bin ar tol position 0 [A, B] = Some 0)"
  using find_bin_Some [of ar tol position 0 stops i] find_bin_None [of ar tol position 0 stops]
  by (simp add: is_near_waypoint_def)

theorem match_returns_first_covering_stop_witness:
  "find_bin exact (COORDINATE_TOLERANCE exact) (0.0002, 0.0001) 0 [(0, 0), (0.0001, 0)] = Some 0 \<and>
   find_bin exact (COORDINATE_TOLERANCE exact) (0.0002, 0.0001) 0 [(1, 1), (0.0001, 0)] = Some 1 \<and>
   find_bin exact (COORDINATE_TOLERANCE exact) (0.01, 0.01) 0 [(0, 0)] = None \<and>
   find_bin binary64 (COORDINATE_TOLERANCE binary64)
     (round_binary64 (- 73.959), round_binary64 40.7723) 0 (BIN_COORDINATES binary64) = Some 2"
proof -
  have a: "find_bin exact (COORDINATE_TOLERANCE exact) (0.0002, 0.0001) 0 [(0, 0), (0.0001, 0)] = Some 0"
    using match_returns_first_covering_stop
      [of exact "COORDINATE_TOLERANCE exact" "(0.0002, 0.0001)" "[]" 0 "(0, 0)" "(0.0001, 0)"]
    by (simp add: COORDINATE_TOLERANCE_def)
  have b: "find_bin exact (COORDINATE_TOLERANCE exact) (0.0002, 0.0001) 0 [(1, 1), (0.0001, 0)] = Some 1"
    using match_returns_first_covering_stop
      [of exact "COORDINATE_TOLERANCE exact" "(0.0002, 0.0001)" "[(1, 1), (0.0001, 0)]" 1]
    by (simp add: COORDINATE_TOLERANCE_def)
  have c: "find_bin exact (COORDINATE_TOLERANCE exact) (0.01, 0.01) 0 [(0, 0)] = None"
    using match_returns_first_covering_stop [of exact "COORDINATE_TOLERANCE exact" "(0.01, 0.01)" "[(0, 0)]"]
    by (simp add: COORDINATE_TOLERANCE_def)
  note d = boundary_search_in_binary64 [THEN conjunct1]
  from a b c d show ?thesis by simp
qed

section \<open>Properties of the walk\<close>

lemma reports_append [simp]: "reports (xs @ ys) = reports xs @ reports ys"
  by (induction xs rule: reports.induct) simp_all

lemma step_sleeps_append [simp]: "step_sleeps (xs @ ys) = step_sleeps xs @ step_sleeps ys"
  by (induction xs rule: step_sleeps.induct) simp_all

lemma reports_reset [simp]: "reports (reset_bin_fill_levels net rs) = []"
  by (induction rs) (auto simp: reset_bin_fill_levels_def split: http_outcome.splits)

lemma step_sleeps_reset [simp]: "step_sleeps (reset_bin_fill_levels net rs) = []"
  by (induction rs) (auto simp: reset_bin_fill_levels_def split: http_outcome.splits)

lemma reports_update_location [simp]:
  "reports (fst (update_location net i x y)) = [(x, y)]"
  by (simp add: update_location_def split: http_outcome.splits)

lemma step_sleeps_update_location [simp]:
  "step_sleeps (fst (update_location net i x y)) = []"
  by (simp add: update_location_def split: http_outcome.splits)

lemma then_do_simps [simp]:
  "then_do (ev, None) second = (ev @ fst second, snd second)"
  "then_do (ev, Some e) second = (ev, Some e)"
  by (simp_all add: then_do_def)

lemma snd_then_do:
  "snd (then_do a b) = (case snd a of Some e \<Rightarrow> Some e | None \<Rightarrow> snd b)"
  by (simp add: then_do_def split: option.splits)

lemma fst_then_do:
  "fst (then_do a b) = (case snd a of Some e \<Rightarrow> fst a | None \<Rightarrow> fst a @ fst b)"
  by (simp add: then_do_def split: option.splits)

text \<open>A step with its bindings unfolded; only the report reads the network.\<close>

lemma route_step_unfold:
  "route_step ar sim net k i (x, y) =
     then_do (fst (update_location net i x y) @ [Print (status_line (snd (update_location net i x y)))], None)
       (then_do (pause_at_bin sim (find_bin ar (tolerance k) (x, y) 0 (bins k)))
                (sleep_between ar sim (length (route k)) i))"
  by (simp add: route_step_def Let_def split: prod.splits)

lemma reports_pause [simp]: "reports (fst (pause_at_bin sim b)) = []"
  by (simp add: pause_at_bin_def py_sleep_def split: option.splits)

lemma reports_sleep_between [simp]: "reports (fst (sleep_between ar sim n i)) = []"
  by (simp add: sleep_between_def py_sleep_def py_div_def)

lemma snd_route_step_network:
  "snd (route_step ar sim net k i c) = snd (route_step ar sim net' k i c)"
  by (cases c) (simp add: route_step_unfold)

lemma reports_route_step_network:
  "reports (fst (route_step ar sim net k i c)) = reports (fst (route_step ar sim net' k i c))"
  by (cases c) (simp add: route_step_unfold fst_then_do split: option.splits)

lemma route_loop_network:
  "snd (route_loop ar sim net k i cs) = snd (route_loop ar sim net' k i cs) \<and>
   reports (fst (route_loop ar sim net k i cs)) = reports (fst (route_loop ar sim net' k i cs))"
proof (induction cs arbitrary: i)
  case Nil
  then show ?case by simp
next
  case (Cons c cs)
  show ?case
    using Cons [of "i + 1"] snd_route_step_network [of ar sim net k i c net']
      reports_route_step_network [of ar sim net k i c net']
    by (simp add: snd_then_do fst_then_do split: option.splits)
qed

text \<open>With a positive speed and a non-negative pause, no step raises.\<close>

lemma pause_ok:
  "0 \<le> pause_time sim \<or> b = None \<Longrightarrow> snd (pause_at_bin sim b) = None"
  by (auto simp: pause_at_bin_def py_sleep_def split: option.splits)

lemma step_sleeps_pause [simp]: "step_sleeps (fst (pause_at_bin sim b)) = []"
  by (simp add: pause_at_bin_def py_sleep_def split: option.splits)

lemma sleep_between_ok:
  "0 < speed sim \<Longrightarrow>
     sleep_between ar sim n i
       = (if i < n - 1 then [StepSleep (rnd ar (1 / speed sim))] else [], None)"
  using rnd_nonneg [of "1 / speed sim" ar]
  by (simp add: sleep_between_def py_sleep_def py_div_def not_less)

lemma route_step_ok:
  assumes "0 < speed sim" and "0 \<le> pause_time sim \<or> find_bin ar (tolerance k) c 0 (bins k) = None"
  shows "snd (route_step ar sim net k i c) = None"
    and "reports (fst (route_step ar sim net k i c)) = [c]"
    and "step_sleeps (fst (route_step ar sim net k i c))
           = (if i < length (route k) - 1 then [rnd ar (1 / speed sim)] else [])"
  using assms pause_ok [of sim "find_bin ar (tolerance k) c 0 (bins k)"]
  by (cases c; simp add: route_step_unfold sleep_between_ok snd_then_do fst_then_do)+

lemma route_loop_ok:
  assumes "0 < speed sim"
    and "0 \<le> pause_time sim \<or> (\<forall>c\<in>set cs. find_bin ar (tolerance k) c 0 (bins k) = None)"
  shows "snd (route_loop ar sim net k i cs) = None \<and>
         reports (fst (route_loop ar sim net k i cs)) = cs \<and>
         step_sleeps (fst (route_loop ar sim net k i cs))
           = replicate (min (length cs) (length (route k) - 1 - i)) (rnd ar (1 / speed sim))"
  using assms(2)
proof (induction cs arbitrary: i)
  case Nil
  then show ?case by simp
next
  case (Cons c cs)
  have p: "0 \<le> pause_time sim \<or> find_bin ar (tolerance k) c 0 (bins k) = None"
    using Cons.prems by auto
  have q: "0 \<le> pause_time sim \<or> (\<forall>c\<in>set cs. find_bin ar (tolerance k) c 0 (bins k) = None)"
    using Cons.prems by auto
  note st = route_step_ok [OF assms(1) p, of net i]
  note ih = Cons.IH [OF q, of "i + 1"]
  have r: "(if i < length (route k) - 1 then [rnd ar (1 / speed sim)] else [])
            @ replicate (min (length cs) (length (route k) - 1 - (i + 1))) (rnd ar (1 / speed sim))
          = replicate (min (length (c # cs)) (length (route k) - 1 - i)) (rnd ar (1 / speed sim))"
  proof (cases "i < length (route k) - 1")
    case True
    then have "length (route k) - 1 - i = Suc (length (route k) - 1 - (i + 1))" by simp
    then show ?thesis using True by simp
  next
    case False
    then show ?thesis by simp
  qed
  show ?case using st ih r by (simp add: snd_then_do fst_then_do)
qed


lemma drive_route_unfold:
  "drive_route ar sim net k =
     (reset_bin_fill_levels net (resets k) @ fst (route_loop ar sim net k 0 (route k)),
      snd (route_loop ar sim net k 0 (route k)))"
  by (simp add: drive_route_def)

lemma print_error_in_loop:
  assumes "snd (route_loop ar sim net k i cs) = None" and "j < length cs"
    and "post_location net (i + j) (cs ! j) = RequestException e"
  shows "Print (''Error updating location: '' @ e) \<in> set (fst (route_loop ar sim net k i cs))"
  using assms
proof (induction cs arbitrary: i j)
  case Nil
  then show ?case by simp
next
  case (Cons c cs)
  from Cons.prems(1) have s1: "snd (route_step ar sim net k i c) = None"
    and s2: "snd (route_loop ar sim net k (i + 1) cs) = None"
    by (auto simp: snd_then_do split: option.splits)
  have f: "fst (route_loop ar sim net k i (c # cs))
             = fst (route_step ar sim net k i c) @ fst (route_loop ar sim net k (i + 1) cs)"
    using s1 by (simp add: fst_then_do)
  show ?case
  proof (cases j)
    case 0
    with Cons.prems(3) have "post_location net i c = RequestException e" by simp
    then have "Print (''Error updating location: '' @ e) \<in> set (fst (route_step ar sim net k i c))"
      by (cases c) (simp add: route_step_unfold update_location_def fst_then_do split: option.splits)
    then show ?thesis using f by simp
  next
    case (Suc j')
    with Cons.prems have "j' < length cs"
      "post_location net (i + 1 + j') (cs ! j') = RequestException e" by simp_all
    from Cons.IH [OF s2 this] show ?thesis using f by simp
  qed
qed

lemma route_loop_completed:
  "snd (route_loop ar sim net k i cs) = None \<Longrightarrow> reports (fst (route_loop ar sim net k i cs)) = cs"
proof (induction cs arbitrary: i)
  case Nil
  then show ?case by simp
next
  case (Cons c cs)
  from Cons.prems have s1: "snd (route_step ar sim net k i c) = None"
    and s2: "snd (route_loop ar sim net k (i + 1) cs) = None"
    by (auto simp: snd_then_do split: option.splits)
  have "reports (fst (route_step ar sim net k i c)) = [c]"
    using s1 by (cases c) (simp add: route_step_unfold fst_then_do snd_then_do split: option.splits)
  then show ?case using s1 Cons.IH [OF s2] by (simp add: fst_then_do)
qed

text \<open>
  C6. A failing report never ends the walk, in every float arithmetic. Whether the run
  raises, and the sequence of positions it reports, are the same as on a network where
  every report succeeds: the outcome of a report reaches nothing but the printed
  lines. And when nothing else can raise (positive speed, non-negative pause), a report
  that fails at step \<open>j\<close> is recorded by the error line, the run ends without an
  exception, and every point of the route is reported, step \<open>j + 1\<close> included.
\<close>

theorem report_failure_never_aborts:
  "snd (drive_route ar sim net k) = snd (drive_route ar sim reliable_network k) \<and>
   reports (fst (drive_route ar sim net k)) = reports (fst (drive_route ar sim reliable_network k)) \<and>
   (0 < speed sim \<and> 0 \<le> pause_time sim \<and> j < length (route k) \<and>
    post_location net j (route k ! j) = RequestException e \<longrightarrow>
      snd (drive_route ar sim net k) = None \<and>
      reports (fst (drive_route ar sim net k)) = route k \<and>
      Print (''Error updating location: '' @ e) \<in> set (fst (drive_route ar sim net k)))"
proof -
  have a: "snd (drive_route ar sim net k) = snd (drive_route ar sim reliable_network k) \<and>
    reports (fst (drive_route ar sim net k)) = reports (fst (drive_route ar sim reliable_network k))"
    using route_loop_network [of ar sim net k 0 "route k" reliable_network]
    by (simp add: drive_route_unfold)
  have b: "snd (drive_route ar sim net k) = None \<and>
      reports (fst (drive_route ar sim net k)) = route k \<and>
      Print (''Error updating location: '' @ e) \<in> set (fst (drive_route ar sim net k))"
    if h: "0 < speed sim" "0 \<le> pause_time sim" "j < length (route k)"
      "post_location net j (route k ! j) = RequestException e"
  proof -
    have ok: "snd (route_loop ar sim net k 0 (route k)) = None"
      "reports (fst (route_loop ar sim net k 0 (route k))) = route k"
      using route_loop_ok [where ar = ar and sim = sim and cs = "route k" and k = k and net = net and i = 0] h(1,2) by simp_all
    have "Print (''Error updating location: '' @ e) \<in> set (fst (route_loop ar sim net k 0 (route k)))"
      using print_error_in_loop [OF ok(1) h(3), of e] h(4) by simp
    then show ?thesis using ok by (simp add: drive_route_unfold)
  qed
  from a b show ?thesis by blast
qed

theorem report_failure_never_aborts_witness:
  "0 < speed (DriverSimulator_init ''http://localhost:5000'' (Some ''t'') 1 0) \<and>
   0 \<le> pause_time (DriverSimulator_init ''http://localhost:5000'' (Some ''t'') 1 0) \<and>
   post_location
      \<lparr> put_fill_level = (\<lambda>b f. Response []),
        post_location = (\<lambda>i c. if i = 0 then RequestException ''timeout'' else Response []) \<rparr>
      0 (0, 0) = RequestException ''timeout'' \<and>
   drive_route exact (DriverSimulator_init ''http://localhost:5000'' (Some ''t'') 1 0)
      \<lparr> put_fill_level = (\<lambda>b f. Response []),
        post_location = (\<lambda>i c. if i = 0 then RequestException ''timeout'' else Response []) \<rparr>
      \<lparr> route = [(0, 0), (0, 1)], bins = [], tolerance = 1 / 2, resets = [] \<rparr>
   = ([PostLocation 0 0, Print ''Error updating location: timeout'', Print '' - Updated'',
       StepSleep 1, PostLocation 0 1, Print '' - Updated''], None) \<and>
   reports (fst (drive_route exact (DriverSimulator_init ''http://localhost:5000'' (Some ''t'') 1 0)
      \<lparr> put_fill_level = (\<lambda>b f. Response []),
        post_location = (\<lambda>i c. if i = 0 then RequestException ''timeout'' else Response []) \<rparr>
      \<lparr> route = [(0, 0), (0, 1)], bins = [], tolerance = 1 / 2, resets = [] \<rparr>))
   = [(0, 0), (0, 1)]"
proof -
  let ?sim = "DriverSimulator_init ''http://localhost:5000'' (Some ''t'') 1 0"
  let ?net = "\<lparr> put_fill_level = (\<lambda>b f. Response []),
        post_location = (\<lambda>i c. if i = (0 :: nat) then RequestException ''timeout''
                                 else Response []) \<rparr>"
  let ?k = "\<lparr> route = [(0, 0), (0, 1)], bins = [], tolerance = 1 / 2, resets = [] \<rparr>"
  have hyps: "0 < speed ?sim \<and> 0 \<le> pause_time ?sim \<and> 0 < length (route ?k) \<and>
      post_location ?net 0 (route ?k ! 0) = RequestException ''timeout''"
    by (simp add: DriverSimulator_init_def)
  then have walked: "reports (fst (drive_route exact ?sim ?net ?k)) = route ?k"
    using report_failure_never_aborts [where ar = exact and sim = ?sim and net = ?net and k = ?k
        and j = 0 and e = "''timeout''"] by blast
  have run: "drive_route exact ?sim ?net ?k
     = ([PostLocation 0 0, Print ''Error updating location: timeout'', Print '' - Updated'',
         StepSleep 1, PostLocation 0 1, Print '' - Updated''], None)"
    by (simp add: drive_route_def route_step_def update_location_def status_line_def
        pause_at_bin_def sleep_between_def py_div_def py_sleep_def reset_bin_fill_levels_def
        DriverSimulator_init_def)
  from hyps walked run show ?thesis by simp
qed

text \<open>
  C8, as stated, fails: with speed 0, which the constructor accepts, a route of two
  points and no bins, the walk posts the first point and raises ZeroDivisionError at
  the sleep that follows, so one report is made for two points.
\<close>

theorem zero_speed_single_report_counterexample:
  "reports (fst (drive_route exact (DriverSimulator_init ''http://localhost:5000'' (Some ''t'') 0 10)
      reliable_network
      \<lparr> route = [(0, 0), (0, 1)], bins = [], tolerance = 1 / 2, resets = [] \<rparr>))
     = [(0, 0)] \<and>
   length (reports (fst (drive_route exact
      (DriverSimulator_init ''http://localhost:5000'' (Some ''t'') 0 10)
      reliable_network
      \<lparr> route = [(0, 0), (0, 1)], bins = [], tolerance = 1 / 2, resets = [] \<rparr>)))
     \<noteq> length [(0, 0), (0, 1 :: real)]"
  by (simp add: drive_route_def route_step_def update_location_def status_line_def
      pause_at_bin_def sleep_between_def py_div_def py_sleep_def reset_bin_fill_levels_def
      DriverSimulator_init_def reliable_network_def)

text \<open>
  C8, amended. In every float arithmetic, a run that ends without an exception has
  reported exactly the points of the route, one report per point and in order. When
  the speed is positive and no point of the route is near a bin, the run ends without
  an exception, so the number of reports is the length of the route.
\<close>

theorem one_report_per_point:
  "(snd (drive_route ar sim net k) = None \<longrightarrow>
      reports (fst (drive_route ar sim net k)) = route k) \<and>
   (0 < speed sim \<and>
    (\<forall>p\<in>set (route k). \<forall>b\<in>set (bins k). \<not> is_near_waypoint ar (tolerance k) p b) \<longrightarrow>
      snd (drive_route ar sim net k) = None \<and>
      length (reports (fst (drive_route ar sim net k))) = length (route k))"
proof -
  have a: "reports (fst (drive_route ar sim net k)) = route k"
    if "snd (drive_route ar sim net k) = None"
    using that route_loop_completed [where ar = ar and sim = sim and net = net and k = k and i = 0 and cs = "route k"] by (simp add: drive_route_unfold)
  have b: "snd (drive_route ar sim net k) = None"
    if "0 < speed sim"
      and "\<forall>p\<in>set (route k). \<forall>b\<in>set (bins k). \<not> is_near_waypoint ar (tolerance k) p b"
  proof -
    have "\<forall>c\<in>set (route k). find_bin ar (tolerance k) c 0 (bins k) = None"
      using that(2) by (simp add: find_bin_None)
    then show ?thesis
      using route_loop_ok [where ar = ar and sim = sim and cs = "route k" and k = k and net = net and i = 0] that(1) by (simp add: drive_route_unfold)
  qed
  from a b show ?thesis by auto
qed

theorem one_report_per_point_witness:
  "0 < speed (DriverSimulator_init ''http://localhost:5000'' (Some ''t'') 2 5) \<and>
   \<not> is_near_waypoint exact (1 / 2) (0, 0) (5, 5) \<and>
   \<not> is_near_waypoint exact (1 / 2) (0, 1) (5, 5) \<and>
   snd (drive_route exact
      (DriverSimulator_init ''http://localhost:5000'' (Some ''t'') 2 5) reliable_network
      \<lparr> route = [(0, 0), (0, 1)], bins = [(5, 5)], tolerance = 1 / 2, resets = [] \<rparr>) = None \<and>
   length (reports (fst (drive_route exact
      (DriverSimulator_init ''http://localhost:5000'' (Some ''t'') 2 5) reliable_network
      \<lparr> route = [(0, 0), (0, 1)], bins = [(5, 5)], tolerance = 1 / 2, resets = [] \<rparr>))) = 2"
proof -
  let ?sim = "DriverSimulator_init ''http://localhost:5000'' (Some ''t'') 2 5"
  let ?k = "\<lparr> route = [(0, 0), (0, 1)], bins = [(5, 5)], tolerance = 1 / 2, resets = [] \<rparr>"
  have h1: "0 < speed ?sim" by (simp add: DriverSimulator_init_def)
  have h2: "\<forall>p\<in>set (route ?k). \<forall>b\<in>set (bins ?k). \<not> is_near_waypoint exact (tolerance ?k) p b"
    by (simp add: is_near_waypoint_def)
  have h3: "\<not> is_near_waypoint exact (1 / 2) (0, 0) (5, 5) \<and> \<not> is_near_waypoint exact (1 / 2) (0, 1) (5, 5)"
    by (simp add: is_near_waypoint_def)
  from one_report_per_point [where ar = exact and sim = ?sim and net = reliable_network and k = ?k] h1 h2 h3 show ?thesis by simp
qed

text \<open>
  C4, as stated, fails: the constructor accepts speed 0 and returns a simulator; the
  walk over a route of two points then posts the first point and raises
  ZeroDivisionError at the sleep that follows, in the middle of the run.
\<close>

theorem zero_speed_counterexample:
  "drive_route exact (DriverSimulator_init ''http://localhost:5000'' (Some ''t'') 0 10)
      reliable_network
      \<lparr> route = [(0, 0), (0, 1)], bins = [], tolerance = 1 / 2, resets = [] \<rparr>
   = ([PostLocation 0 0, Print '' - Updated''], Some ZeroDivisionError)"
  by (simp add: drive_route_def route_step_def update_location_def status_line_def
      pause_at_bin_def sleep_between_def py_div_def py_sleep_def reset_bin_fill_levels_def
      DriverSimulator_init_def reliable_network_def)

text \<open>
  C4, amended. The constructor checks nothing: for every speed and pause time, the
  non-positive ones included, it returns a simulator that stores them as given. With a
  positive speed and a non-negative pause time the walk never divides by zero and never
  sleeps a negative interval, on every network, route and bin list, and it sleeps
  between consecutive points exactly \<open>len(route) - 1\<close> times, each time for the float
  quotient \<open>1.0 / speed\<close>. This holds in every float arithmetic.
\<close>

theorem positive_speed_interval:
  "speed (DriverSimulator_init url tok spd pause) = spd \<and>
   pause_time (DriverSimulator_init url tok spd pause) = pause \<and>
   (0 < spd \<and> 0 \<le> pause \<longrightarrow>
      snd (drive_route ar (DriverSimulator_init url tok spd pause) net k) = None \<and>
      step_sleeps (fst (drive_route ar (DriverSimulator_init url tok spd pause) net k))
        = replicate (length (route k) - 1) (rnd ar (1 / spd)))"
proof -
  let ?sim = "DriverSimulator_init url tok spd pause"
  have s: "speed ?sim = spd" "pause_time ?sim = pause"
    by (simp_all add: DriverSimulator_init_def)
  have "min (length (route k)) (length (route k) - 1 - 0) = length (route k) - 1" by simp
  then have "snd (drive_route ar ?sim net k) = None \<and>
      step_sleeps (fst (drive_route ar ?sim net k))
        = replicate (length (route k) - 1) (rnd ar (1 / spd))"
    if "0 < spd" "0 \<le> pause"
    using route_loop_ok [where ar = ar and sim = ?sim and cs = "route k" and k = k and net = net and i = 0] that s by (simp add: drive_route_unfold)
  then show ?thesis using s by blast
qed

theorem positive_speed_interval_witness:
  "speed (DriverSimulator_init ''http://localhost:5000'' (Some ''t'') 0 (- 1)) = 0 \<and>
   pause_time (DriverSimulator_init ''http://localhost:5000'' (Some ''t'') 0 (- 1)) = - 1 \<and>
   (0 :: real) < 2 \<and> (0 :: int) \<le> 5 \<and>
   snd (drive_route exact (DriverSimulator_init ''http://localhost:5000'' (Some ''t'') 2 5)
      reliable_network
      \<lparr> route = [(0, 0), (0, 1), (0, 2)], bins = [(0, 1)], tolerance = 1 / 2, resets = [] \<rparr>)
     = None \<and>
   step_sleeps (fst (drive_route exact (DriverSimulator_init ''http://localhost:5000'' (Some ''t'') 2 5)
      reliable_network
      \<lparr> route = [(0, 0), (0, 1), (0, 2)], bins = [(0, 1)], tolerance = 1 / 2, resets = [] \<rparr>))
     = [1 / 2, 1 / 2]"
proof -
  have "replicate (length [(0, 0), (0, 1), (0, 2 :: real)] - 1) (1 / (2 :: real)) = [1 / 2, 1 / 2]"
    by (simp add: numeral_2_eq_2)
  then show ?thesis
    using positive_speed_interval [where url = "''http://localhost:5000''" and tok = "Some ''t''"
        and spd = 2 and pause = 5 and ar = exact and net = reliable_network
        and k = "\<lparr> route = [(0, 0), (0, 1), (0, 2)], bins = [(0, 1)], tolerance = 1 / 2,
                  resets = [] \<rparr>"]
      positive_speed_interval [where url = "''http://localhost:5000''" and tok = "Some ''t''"
        and spd = 0 and pause = "- 1" and ar = exact]
    by simp
qed

end
